theory Spec2Isabelle
  imports Complex_Main "HOL-Library.Word"
begin

section \<open>The batch committer of batch_push.py\<close>

text \<open>
  The script lists the changed paths of a git working tree, slices them into batches of
  \<open>BATCH_SIZE\<close> paths and, for every batch, writes the paths to a temporary file, stages
  them, commits them and pushes. The model follows the three functions of the source:
  \<open>run_git_command\<close>, \<open>get_changed_files\<close> and \<open>main\<close>.

  Everything the script does to its surroundings is explicit. The outcome of every
  subprocess, of every \<open>open\<close> and of every \<open>os.remove\<close> is read from a \<open>world\<close>; every
  print, every subprocess call and every file operation is appended to a trace; the
  files are a map from names to what the name holds; an exception is a value.
\<close>

subsection \<open>Bytes and text\<close>

text \<open>
  A Python \<open>bytes\<close> object is a list of 8-bit words. A Python \<open>str\<close> is a list of Unicode
  code points, written as natural numbers (the newline is 10). The script's own ASCII
  literals (argument vectors, the commit message) are Isabelle strings.
\<close>

type_synonym byte = "8 word"
type_synonym bytes = "byte list"
type_synonym pystr = "nat list"

text \<open>
  \<open>bytes.split(sep)\<close> with a one-byte separator: the pieces between the separators, the
  empty ones included; a byte string with k separators has k + 1 pieces.
\<close>

fun split_bytes :: "byte \<Rightarrow> bytes \<Rightarrow> bytes list" where
  "split_bytes sep [] = [[]]"
| "split_bytes sep (b # bs) =
     (if b = sep then [] # split_bytes sep bs
      else (case split_bytes sep bs of
              [] \<Rightarrow> [[b]]
            | r # rs \<Rightarrow> (b # r) # rs))"

text \<open>
  \<open>bytes.decode('utf-8', errors='ignore')\<close>. A well-formed sequence gives its code point.
  An ill-formed one is dropped up to, and not including, the byte that broke it, and
  decoding resumes at that byte; a sequence cut off by the end of the input is dropped.
  The lead bytes and the ranges of the second byte are those of the UTF-8 definition
  (no overlong forms, no surrogates, nothing above U+10FFFF).
\<close>

definition is_cont :: "byte \<Rightarrow> bool" where
  "is_cont c = (0x80 \<le> c \<and> c \<le> 0xBF)"

definition second_ok :: "byte \<Rightarrow> byte \<Rightarrow> bool" where
  "second_ok b c =
     (if b = 0xE0 then 0xA0 \<le> c \<and> c \<le> 0xBF
      else if b = 0xED then 0x80 \<le> c \<and> c \<le> 0x9F
      else if b = 0xF0 then 0x90 \<le> c \<and> c \<le> 0xBF
      else if b = 0xF4 then 0x80 \<le> c \<and> c \<le> 0x8F
      else is_cont c)"

definition low6 :: "byte \<Rightarrow> nat" where
  "low6 c = unat c - 0x80"

fun utf8_decode_ignore :: "bytes \<Rightarrow> pystr" where
  "utf8_decode_ignore [] = []"
| "utf8_decode_ignore (b # bs) =
     (if b < 0x80 then unat b # utf8_decode_ignore bs
      else if 0xC2 \<le> b \<and> b \<le> 0xDF then
        (case bs of
           [] \<Rightarrow> []
         | c1 # bs1 \<Rightarrow>
             if is_cont c1
             then ((unat b - 0xC0) * 64 + low6 c1) # utf8_decode_ignore bs1
             else utf8_decode_ignore bs)
      else if 0xE0 \<le> b \<and> b \<le> 0xEF then
        (case bs of
           [] \<Rightarrow> []
         | c1 # bs1 \<Rightarrow>
             if \<not> second_ok b c1 then utf8_decode_ignore bs
             else (case bs1 of
                     [] \<Rightarrow> []
                   | c2 # bs2 \<Rightarrow>
                       if is_cont c2
                       then ((unat b - 0xE0) * 4096 + low6 c1 * 64 + low6 c2)
                              # utf8_decode_ignore bs2
                       else utf8_decode_ignore bs1))
      else if 0xF0 \<le> b \<and> b \<le> 0xF4 then
        (case bs of
           [] \<Rightarrow> []
         | c1 # bs1 \<Rightarrow>
             if \<not> second_ok b c1 then utf8_decode_ignore bs
             else (case bs1 of
                     [] \<Rightarrow> []
                   | c2 # bs2 \<Rightarrow>
                       if \<not> is_cont c2 then utf8_decode_ignore bs1
                       else (case bs2 of
                               [] \<Rightarrow> []
                             | c3 # bs3 \<Rightarrow>
                                 if is_cont c3
                                 then ((unat b - 0xF0) * 262144 + low6 c1 * 4096
                                         + low6 c2 * 64 + low6 c3)
                                        # utf8_decode_ignore bs3
                                 else utf8_decode_ignore bs2)))
      else utf8_decode_ignore bs)"

subsection \<open>Configuration\<close>

definition BATCH_SIZE :: nat where
  "BATCH_SIZE = 500"

definition COMMIT_MSG_PREFIX :: string where
  "COMMIT_MSG_PREFIX = ''Auto-batch commit: Part''"

definition list_file :: string where
  "list_file = ''temp_batch_list.txt''"

subsection \<open>Subprocesses, exceptions, the trace and the files\<close>

text \<open>
  What \<open>subprocess.run\<close> can do: return a completed process (return code, captured
  standard output, captured standard error), or raise \<open>OSError\<close> because the program
  could not be started. With \<open>check=True\<close> a return code other than 0 raises
  \<open>CalledProcessError\<close>, which carries the return code, the command and the captured
  standard error.
\<close>

datatype proc_result = Completed int bytes bytes | SpawnFailed

datatype exn = CalledProcessError int "string list" bytes | OSError

text \<open>
  The lines the script prints, by what they say: \<open>MsgFetching\<close> announces the status
  query; \<open>MsgCommandFailed\<close> (the arguments joined by spaces) and \<open>MsgErrorInfo\<close> (the
  decoded standard error) are the two lines of \<open>run_git_command\<close>'s handler; \<open>MsgNoFiles\<close>
  says that nothing is to be committed; \<open>MsgFound\<close> gives the number of files;
  \<open>MsgProgress\<close> gives the batch ordinal, the number of batches and the size of the
  batch; \<open>MsgPushing\<close> announces a push; \<open>MsgPushFailed\<close> stands for the three lines
  printed when a push returns a code other than 0; \<open>MsgException\<close> is the line of the
  loop's exception handler; \<open>MsgFinished\<close> is the last line of \<open>main\<close>.
\<close>

datatype msg =
    MsgFetching
  | MsgCommandFailed string
  | MsgErrorInfo pystr
  | MsgNoFiles
  | MsgFound nat
  | MsgProgress nat nat nat
  | MsgPushing nat
  | MsgPushFailed nat
  | MsgException exn
  | MsgFinished

text \<open>
  The trace: a printed line, a call of \<open>subprocess.run\<close> with its arguments and with
  what the call did (the call returns only when the process has ended), the writing of
  a file with its whole content, the removal of a file, and a call of \<open>os.remove\<close> that
  raised.
\<close>

datatype event =
    Print msg
  | Exec "string list" proc_result
  | WriteFile string pystr
  | RemoveFile string
  | RemoveFailed string

text \<open>
  What a name holds: a regular file with its text, or a directory. \<open>os.path.exists\<close> is
  true of both.
\<close>

datatype node = File pystr | Directory

record state =
  trace :: "event list"
  fs :: "string \<Rightarrow> node option"

text \<open>
  The surroundings of one run: the result of the status query, and for the batch with
  loop index \<open>i\<close> whether opening the temporary file raises, the results of \<open>git add\<close>,
  \<open>git commit\<close> and \<open>git push\<close>, and whether \<open>os.remove\<close> raises. Each of these is asked at
  most once per batch, so indexing by the batch covers every behaviour of the
  surroundings in one run. The world answers for the files as well: where the name of
  the temporary file is a directory, \<open>open\<close> raises and \<open>os.remove\<close> raises; where it is
  a file in a directory that cannot be written, \<open>open\<close> succeeds and \<open>os.remove\<close> raises.
  Git is taken not to touch the temporary file.
\<close>

record world =
  status_res :: proc_result
  open_raises :: "nat \<Rightarrow> bool"
  add_res :: "nat \<Rightarrow> proc_result"
  commit_res :: "nat \<Rightarrow> proc_result"
  push_res :: "nat \<Rightarrow> proc_result"
  remove_raises :: "nat \<Rightarrow> bool"

definition emit :: "event \<Rightarrow> state \<Rightarrow> state" where
  "emit e st = st\<lparr>trace := trace st @ [e]\<rparr>"

definition write_file :: "string \<Rightarrow> pystr \<Rightarrow> state \<Rightarrow> state" where
  "write_file name content st =
     emit (WriteFile name content) (st\<lparr>fs := (fs st)(name \<mapsto> File content)\<rparr>)"

definition remove_file :: "string \<Rightarrow> state \<Rightarrow> state" where
  "remove_file name st = emit (RemoveFile name) (st\<lparr>fs := (fs st)(name := None)\<rparr>)"

definition subprocess_run ::
  "string list \<Rightarrow> bool \<Rightarrow> proc_result \<Rightarrow> state \<Rightarrow> (exn + int \<times> bytes) \<times> state" where
  "subprocess_run args check res st =
     (let st' = emit (Exec args res) st in
      case res of
        SpawnFailed \<Rightarrow> (Inl OSError, st')
      | Completed rc out err \<Rightarrow>
          if check \<and> rc \<noteq> 0 then (Inl (CalledProcessError rc args err), st')
          else (Inr (rc, out), st'))"

subsection \<open>run_git_command\<close>

fun join_spaces :: "string list \<Rightarrow> string" where
  "join_spaces [] = []"
| "join_spaces [a] = a"
| "join_spaces (a # b # rest) = a @ '' '' @ join_spaces (b # rest)"

text \<open>
  The handler catches \<open>CalledProcessError\<close> only: it prints two lines and returns
  \<open>None\<close>. Any other exception leaves the function.
\<close>

definition run_git_command ::
  "string list \<Rightarrow> proc_result \<Rightarrow> state \<Rightarrow> (exn + bytes option) \<times> state" where
  "run_git_command args res st =
     (case subprocess_run args True res st of
        (Inr (rc, out), st') \<Rightarrow> (Inr (Some out), st')
      | (Inl (CalledProcessError rc cmd err), st') \<Rightarrow>
          (Inr None,
           emit (Print (MsgErrorInfo (utf8_decode_ignore err)))
             (emit (Print (MsgCommandFailed (join_spaces args))) st'))
      | (Inl OSError, st') \<Rightarrow> (Inl OSError, st'))"

subsection \<open>get_changed_files\<close>

definition git_status_args :: "string list" where
  "git_status_args = [''git'', ''status'', ''--porcelain'', ''-z'']"

text \<open>
  The loop over the entries, with the list \<open>files\<close> it appends to. An empty entry is
  skipped; the path is the entry from index 3 on, decoded; an empty path is not
  appended.
\<close>

fun collect_paths :: "bytes list \<Rightarrow> pystr list \<Rightarrow> pystr list" where
  "collect_paths [] files = files"
| "collect_paths (entry # entries) files =
     (if entry = [] then collect_paths entries files
      else
        (let file_path = utf8_decode_ignore (drop 3 entry) in
         if file_path \<noteq> [] then collect_paths entries (files @ [file_path])
         else collect_paths entries files))"

text \<open>What the function does with the value \<open>run_git_command\<close> returned.\<close>

definition parse_status :: "bytes option \<Rightarrow> pystr list" where
  "parse_status stdout =
     (case stdout of
        None \<Rightarrow> []
      | Some out \<Rightarrow> if out = [] then [] else collect_paths (split_bytes 0 out) [])"

definition get_changed_files :: "world \<Rightarrow> state \<Rightarrow> (exn + pystr list) \<times> state" where
  "get_changed_files w st =
     (case run_git_command git_status_args (status_res w) st of
        (Inl e, st') \<Rightarrow> (Inl e, st')
      | (Inr stdout, st') \<Rightarrow> (Inr (parse_status stdout), st'))"

subsection \<open>The batches\<close>

text \<open>
  \<open>BATCH_SIZE\<close> is a constant of the module. The functions below take the batch size as
  the argument \<open>B\<close>, and \<open>main\<close> passes \<open>BATCH_SIZE\<close>. The counts are natural numbers: for
  \<open>B \<ge> 1\<close> no intermediate value of the source is negative. (For \<open>B = 0\<close> the source's
  division raises; the constant is 500.)
\<close>

text \<open>The slice \<open>xs[s:e]\<close> for indices that are not negative.\<close>

definition slice :: "'a list \<Rightarrow> nat \<Rightarrow> nat \<Rightarrow> 'a list" where
  "slice xs s e = drop s (take e xs)"

definition num_batches_of :: "nat \<Rightarrow> nat \<Rightarrow> nat" where
  "num_batches_of B total_files = (total_files + B - 1) div B"

definition batch_files_of :: "nat \<Rightarrow> 'a list \<Rightarrow> nat \<Rightarrow> 'a list" where
  "batch_files_of B all_files i =
     (let total_files = length all_files;
          start_index = i * B;
          end_index = min (start_index + B) total_files
      in slice all_files start_index end_index)"

subsection \<open>One batch\<close>

text \<open>The decimal digits of a number, as \<open>str\<close> gives them in an f-string.\<close>

definition digit_char :: "nat \<Rightarrow> char" where
  "digit_char d = ''0123456789'' ! d"

function str_nat :: "nat \<Rightarrow> string" where
  "str_nat n =
     (if n < 10 then [digit_char n]
      else str_nat (n div 10) @ [digit_char (n mod 10)])"
  by pat_completeness auto
termination
  by (relation "measure id") auto

declare str_nat.simps [simp del]

definition commit_msg :: "nat \<Rightarrow> nat \<Rightarrow> string" where
  "commit_msg ordinal num_batches =
     COMMIT_MSG_PREFIX @ '' '' @ str_nat ordinal @ '' of '' @ str_nat num_batches"

definition git_add_args :: "string list" where
  "git_add_args = [''git'', ''add'', ''--pathspec-from-file='' @ list_file]"

definition git_commit_args :: "string \<Rightarrow> string list" where
  "git_commit_args m = [''git'', ''commit'', ''-m'', m]"

definition git_push_args :: "string list" where
  "git_push_args = [''git'', ''push'']"

text \<open>
  The loop that writes the file: every path followed by a newline, appended to what was
  written before. The file is opened for writing, so it starts empty.
\<close>

fun write_paths :: "pystr list \<Rightarrow> pystr \<Rightarrow> pystr" where
  "write_paths [] written = written"
| "write_paths (path # paths) written = write_paths paths (written @ (path @ [10]))"

definition file_content :: "pystr list \<Rightarrow> pystr" where
  "file_content batch_files = write_paths batch_files []"

datatype ctl = Continue | Break

text \<open>
  The suite of the \<open>try\<close>: it ends with an exception, or normally (\<open>Continue\<close>), or with the
  \<open>break\<close> after a failed push. \<open>git add\<close> and \<open>git commit\<close> run with \<open>check=True\<close>,
  \<open>git push\<close> without.
\<close>

definition try_suite ::
  "world \<Rightarrow> nat \<Rightarrow> nat \<Rightarrow> pystr list \<Rightarrow> state \<Rightarrow> (exn + ctl) \<times> state" where
  "try_suite w i num_batches batch_files st =
     (if open_raises w i then (Inl OSError, st)
      else
        (let st1 = write_file list_file (file_content batch_files) st in
         case subprocess_run git_add_args True (add_res w i) st1 of
           (Inl e, st2) \<Rightarrow> (Inl e, st2)
         | (Inr added, st2) \<Rightarrow>
             (let m = commit_msg (i + 1) num_batches in
              case subprocess_run (git_commit_args m) True (commit_res w i) st2 of
                (Inl e, st3) \<Rightarrow> (Inl e, st3)
              | (Inr committed, st3) \<Rightarrow>
                  (let st4 = emit (Print (MsgPushing (i + 1))) st3 in
                   case subprocess_run git_push_args False (push_res w i) st4 of
                     (Inl e, st5) \<Rightarrow> (Inl e, st5)
                   | (Inr (returncode, out), st5) \<Rightarrow>
                       if returncode \<noteq> 0
                       then (Inr Break, emit (Print (MsgPushFailed (i + 1))) st5)
                       else (Inr Continue, st5)))))"

text \<open>
  The \<open>finally\<close> clause: when the name exists, \<open>os.remove\<close> is called. It removes the
  file, or it raises and the name stays as it is.
\<close>

definition finally_clause :: "world \<Rightarrow> nat \<Rightarrow> state \<Rightarrow> exn option \<times> state" where
  "finally_clause w i st =
     (if fs st list_file \<noteq> None then
        (if remove_raises w i then (Some OSError, emit (RemoveFailed list_file) st)
         else (None, remove_file list_file st))
      else (None, st))"

text \<open>
  One iteration of the loop: the progress line, the \<open>try\<close> suite, the handler of
  \<open>except Exception\<close> (a line and \<open>break\<close>), and then the \<open>finally\<close> clause. An exception
  raised in the \<open>finally\<close> clause takes the place of the \<open>break\<close> or of the normal end
  and leaves the loop.
\<close>

definition process_batch ::
  "nat \<Rightarrow> world \<Rightarrow> pystr list \<Rightarrow> nat \<Rightarrow> nat \<Rightarrow> state \<Rightarrow> (exn + ctl) \<times> state" where
  "process_batch B w all_files num_batches i st =
     (let batch_files = batch_files_of B all_files i;
          st0 = emit (Print (MsgProgress (i + 1) num_batches (length batch_files))) st;
          (r, st1) = try_suite w i num_batches batch_files st0;
          (c, st2) = (case r of
                        Inl e \<Rightarrow> (Break, emit (Print (MsgException e)) st1)
                      | Inr c \<Rightarrow> (c, st1));
          (raised, st3) = finally_clause w i st2
      in (case raised of Some e \<Rightarrow> (Inl e, st3) | None \<Rightarrow> (Inr c, st3)))"

subsection \<open>main\<close>

text \<open>
  \<open>for i in range(num_batches)\<close>, over the list of the indices still to come. The loop
  ends normally (\<open>None\<close>), also by \<open>break\<close>, or an exception leaves it.
\<close>

fun for_batches ::
  "nat \<Rightarrow> world \<Rightarrow> pystr list \<Rightarrow> nat \<Rightarrow> nat list \<Rightarrow> state \<Rightarrow> exn option \<times> state" where
  "for_batches B w all_files num_batches [] st = (None, st)"
| "for_batches B w all_files num_batches (i # rest) st =
     (case process_batch B w all_files num_batches i st of
        (Inl e, st') \<Rightarrow> (Some e, st')
      | (Inr Continue, st') \<Rightarrow> for_batches B w all_files num_batches rest st'
      | (Inr Break, st') \<Rightarrow> (None, st'))"

text \<open>
  How the run ends: \<open>main\<close> returns, or an exception leaves it. The interpreter then exits
  with status 0, or with status 1 after printing the traceback.
\<close>

datatype outcome = Returned | Unhandled exn

fun exit_status :: "outcome \<Rightarrow> int" where
  "exit_status Returned = 0"
| "exit_status (Unhandled e) = 1"

definition run_main :: "nat \<Rightarrow> world \<Rightarrow> state \<Rightarrow> outcome \<times> state" where
  "run_main B w st =
     (let st1 = emit (Print MsgFetching) st in
      case get_changed_files w st1 of
        (Inl e, st2) \<Rightarrow> (Unhandled e, st2)
      | (Inr all_files, st2) \<Rightarrow>
          (let total_files = length all_files in
           if total_files = 0 then (Returned, emit (Print MsgNoFiles) st2)
           else
             (let st3 = emit (Print (MsgFound total_files)) st2;
                  num_batches = num_batches_of B total_files
              in case for_batches B w all_files num_batches [0..<num_batches] st3 of
                   (Some e, st4) \<Rightarrow> (Unhandled e, st4)
                 | (None, st4) \<Rightarrow> (Returned, emit (Print MsgFinished) st4))))"

definition main :: "world \<Rightarrow> state \<Rightarrow> outcome \<times> state" where
  "main = run_main BATCH_SIZE"

subsection \<open>Notions used in the statements\<close>

text \<open>
  The enumeration of the changes as the specification words it: split at the null
  bytes, leave out the empty records, drop the three bytes of the status prefix, decode
  the rest, leave out the empty paths.
\<close>

definition enumerate_changes_spec :: "bytes \<Rightarrow> pystr list" where
  "enumerate_changes_spec out =
     filter (\<lambda>p. p \<noteq> [])
       (map (\<lambda>r. utf8_decode_ignore (drop 3 r))
          (filter (\<lambda>r. r \<noteq> []) (split_bytes 0 out)))"

text \<open>The inverse of splitting: the pieces with the separator between them.\<close>

fun join_bytes :: "byte \<Rightarrow> bytes list \<Rightarrow> bytes" where
  "join_bytes sep [] = []"
| "join_bytes sep [r] = r"
| "join_bytes sep (r # r' # rs) = r @ sep # join_bytes sep (r' # rs)"

text \<open>A process that ended with return code 0, and one that ended with another code.\<close>

fun exit_zero :: "proc_result \<Rightarrow> bool" where
  "exit_zero (Completed rc out err) = (rc = 0)"
| "exit_zero SpawnFailed = False"

fun exit_nonzero :: "proc_result \<Rightarrow> bool" where
  "exit_nonzero (Completed rc out err) = (rc \<noteq> 0)"
| "exit_nonzero SpawnFailed = False"

text \<open>
  A batch whose file operations succeed: the file can be opened and \<open>os.remove\<close> does not
  raise. A batch that is committed: its file operations succeed and \<open>git add\<close> and
  \<open>git commit\<close> end with return code 0. A batch that succeeds: it is committed and
  \<open>git push\<close> ends with return code 0.
\<close>

definition file_ok :: "world \<Rightarrow> nat \<Rightarrow> bool" where
  "file_ok w i = (\<not> open_raises w i \<and> \<not> remove_raises w i)"

definition batch_committed :: "world \<Rightarrow> nat \<Rightarrow> bool" where
  "batch_committed w i =
     (file_ok w i \<and> exit_zero (add_res w i) \<and> exit_zero (commit_res w i))"

definition batch_succeeds :: "world \<Rightarrow> nat \<Rightarrow> bool" where
  "batch_succeeds w i = (batch_committed w i \<and> exit_zero (push_res w i))"

text \<open>The events of a run since the state \<open>st\<close>, and four views of a list of events.\<close>

definition new_events :: "state \<Rightarrow> state \<Rightarrow> event list" where
  "new_events st st' = drop (length (trace st)) (trace st')"

fun execs :: "event list \<Rightarrow> (string list \<times> proc_result) list" where
  "execs [] = []"
| "execs (Exec args res # es) = (args, res) # execs es"
| "execs (e # es) = execs es"

fun writes :: "event list \<Rightarrow> (string \<times> pystr) list" where
  "writes [] = []"
| "writes (WriteFile name content # es) = (name, content) # writes es"
| "writes (e # es) = writes es"

fun handled :: "event list \<Rightarrow> exn list" where
  "handled [] = []"
| "handled (Print (MsgException e) # es) = e # handled es"
| "handled (e # es) = handled es"

text \<open>The lines on standard output.\<close>

fun printed :: "event list \<Rightarrow> msg list" where
  "printed [] = []"
| "printed (Print m # es) = m # printed es"
| "printed (e # es) = printed es"

text \<open>
  The exception that \<open>subprocess.run\<close> with \<open>check=True\<close> raises for a call that did not
  end with return code 0, and the one raised in the batch with loop index \<open>i\<close> when
  \<open>git add\<close> is the command that fails, or else \<open>git commit\<close>.
\<close>

fun check_error :: "string list \<Rightarrow> proc_result \<Rightarrow> exn" where
  "check_error args (Completed rc out err) = CalledProcessError rc args err"
| "check_error args SpawnFailed = OSError"

definition stage_or_commit_error :: "world \<Rightarrow> nat \<Rightarrow> nat \<Rightarrow> exn" where
  "stage_or_commit_error w num_batches i =
     (if exit_nonzero (add_res w i) then check_error git_add_args (add_res w i)
      else check_error (git_commit_args (commit_msg (i + 1) num_batches)) (commit_res w i))"

text \<open>The three commands of the batch with loop index \<open>i\<close>, each with its result.\<close>

definition batch_commands :: "world \<Rightarrow> nat \<Rightarrow> nat \<Rightarrow> (string list \<times> proc_result) list" where
  "batch_commands w num_batches i =
     [(git_add_args, add_res w i),
      (git_commit_args (commit_msg (i + 1) num_batches), commit_res w i),
      (git_push_args, push_res w i)]"

text \<open>All the events of a batch in which nothing raises and the push is not inspected.\<close>

definition batch_events :: "nat \<Rightarrow> world \<Rightarrow> pystr list \<Rightarrow> nat \<Rightarrow> nat \<Rightarrow> event list" where
  "batch_events B w all_files num_batches i =
     [Print (MsgProgress (i + 1) num_batches (length (batch_files_of B all_files i))),
      WriteFile list_file (file_content (batch_files_of B all_files i)),
      Exec git_add_args (add_res w i),
      Exec (git_commit_args (commit_msg (i + 1) num_batches)) (commit_res w i),
      Print (MsgPushing (i + 1)),
      Exec git_push_args (push_res w i)]"

text \<open>
  The order of the steps as an automaton over the trace. A run starts with the status
  query. A batch goes from \<open>Idle\<close> through the writing of the file, \<open>git add\<close>,
  \<open>git commit\<close> and \<open>git push\<close>, each of the three only after the one before it ended
  with return code 0, and back to \<open>Idle\<close> by the removal of the file. After a command
  that did not end with return code 0 (\<open>Failing\<close>) nothing but the removal of the file
  follows, and after that (\<open>Halted\<close>) nothing at all. A removal that raises can stand
  where a removal can, and nothing follows it. Printed lines do not move the automaton.
\<close>

datatype phase = Start | Idle | Written | Staged | Committed | Pushed | Failing | Halted

definition is_commit :: "string list \<Rightarrow> bool" where
  "is_commit args = (length args = 4 \<and> take 3 args = [''git'', ''commit'', ''-m''])"

definition after_command :: "proc_result \<Rightarrow> phase \<Rightarrow> phase" where
  "after_command res p = (if exit_zero res then p else Failing)"

fun next_phase :: "phase \<Rightarrow> event \<Rightarrow> phase option" where
  "next_phase p (Print m) = Some p"
| "next_phase Start (Exec args res) =
     (if args = git_status_args then Some Idle else None)"
| "next_phase Written (Exec args res) =
     (if args = git_add_args then Some (after_command res Staged) else None)"
| "next_phase Staged (Exec args res) =
     (if is_commit args then Some (after_command res Committed) else None)"
| "next_phase Committed (Exec args res) =
     (if args = git_push_args then Some (after_command res Pushed) else None)"
| "next_phase p (Exec args res) = None"
| "next_phase Idle (WriteFile name content) =
     (if name = list_file then Some Written else None)"
| "next_phase p (WriteFile name content) = None"
| "next_phase Start (RemoveFile name) = None"
| "next_phase Halted (RemoveFile name) = None"
| "next_phase Idle (RemoveFile name) = (if name = list_file then Some Halted else None)"
| "next_phase Pushed (RemoveFile name) = (if name = list_file then Some Idle else None)"
| "next_phase p (RemoveFile name) = (if name = list_file then Some Halted else None)"
| "next_phase Start (RemoveFailed name) = None"
| "next_phase Halted (RemoveFailed name) = None"
| "next_phase p (RemoveFailed name) = (if name = list_file then Some Halted else None)"

fun run_phases :: "phase \<Rightarrow> event list \<Rightarrow> phase option" where
  "run_phases p [] = Some p"
| "run_phases p (e # es) =
     (case next_phase p e of None \<Rightarrow> None | Some p' \<Rightarrow> run_phases p' es)"

definition ordered_run :: "event list \<Rightarrow> bool" where
  "ordered_run tr = (run_phases Start tr = Some Idle \<or> run_phases Start tr = Some Halted)"

text \<open>The number that a string of decimal digits writes.\<close>

definition digit_value :: "char \<Rightarrow> nat" where
  "digit_value c = of_char c - 48"

definition decimal_value :: "string \<Rightarrow> nat" where
  "decimal_value s = foldl (\<lambda>a c. 10 * a + digit_value c) 0 s"

text \<open>
  Concrete surroundings for the examples: a state with no events and no files; a world
  in which the status query prints \<open>out\<close> and every later command ends with return code
  0; and the status output with \<open>n\<close> records of the untracked path \<open>a\<close>.
\<close>

definition fresh_state :: state where
  "fresh_state = \<lparr>trace = [], fs = (\<lambda>name. None)\<rparr>"

definition calm_world :: "bytes \<Rightarrow> world" where
  "calm_world out =
     \<lparr>status_res = Completed 0 out [],
      open_raises = (\<lambda>i. False),
      add_res = (\<lambda>i. Completed 0 [] []),
      commit_res = (\<lambda>i. Completed 0 [] []),
      push_res = (\<lambda>i. Completed 0 [] []),
      remove_raises = (\<lambda>i. False)\<rparr>"

definition status_records :: "nat \<Rightarrow> bytes" where
  "status_records n = concat (replicate n [0x3F, 0x3F, 0x20, 0x61, 0])"

section \<open>Enumerating the changes\<close>

lemma split_bytes_not_Nil: "split_bytes sep bs \<noteq> []"
  by (induction bs) (auto split: list.splits)

lemma join_split_bytes: "join_bytes sep (split_bytes sep bs) = bs"
proof (induction bs)
  case Nil
  show ?case by simp
next
  case (Cons b bs)
  obtain r rs where sp: "split_bytes sep bs = r # rs"
    using split_bytes_not_Nil [of sep bs] by (cases "split_bytes sep bs") auto
  show ?case
  proof (cases "b = sep")
    case True
    with Cons sp show ?thesis by simp
  next
    case False
    with Cons sp show ?thesis by (cases rs) auto
  qed
qed

lemma split_bytes_no_sep: "sep \<notin> set (concat (split_bytes sep bs))"
  by (induction bs) (auto split: list.splits)

lemma collect_paths_filter:
  "collect_paths entries files =
     files @ filter (\<lambda>p. p \<noteq> [])
               (map (\<lambda>r. utf8_decode_ignore (drop 3 r)) (filter (\<lambda>r. r \<noteq> []) entries))"
  by (induction entries arbitrary: files) (simp_all add: Let_def)

lemma parse_status_spec: "parse_status (Some out) = enumerate_changes_spec out"
  by (simp add: parse_status_def enumerate_changes_spec_def collect_paths_filter)

text \<open>
  The decoder on well-formed sequences of one to four bytes, on a byte that cannot start
  a sequence, on sequences that are cut off or broken, on an overlong form and on a
  surrogate.
\<close>

lemma utf8_decode_ignore_examples:
  "utf8_decode_ignore [0x61, 0xC3, 0xA9, 0xE4, 0xB8, 0xAD, 0xF0, 0x9F, 0x98, 0x80]
     = [97, 233, 20013, 128512]"
  "utf8_decode_ignore [0xFF, 0x61, 0xC3] = [97]"
  "utf8_decode_ignore [0xE4, 0xB8, 0x61] = [97]"
  "utf8_decode_ignore [0xC0, 0x80] = []"
  "utf8_decode_ignore [0xED, 0xA0, 0x80] = []"
  by (simp_all add: is_cont_def low6_def second_ok_def)

text \<open>
  A status output with the record of the untracked path \<open>a\<close> twice, an empty record, a
  record with nothing after the prefix, the record of the modified path \<open>b\<close>, and a
  record whose rest is no UTF-8: both \<open>a\<close> are kept, and the records with no path
  are left out.
\<close>

lemma parse_status_example:
  "parse_status (Some [0x3F, 0x3F, 0x20, 0x61, 0, 0x3F, 0x3F, 0x20, 0x61, 0, 0,
                       0x3F, 0x3F, 0x20, 0, 0x20, 0x4D, 0x20, 0x62, 0,
                       0x3F, 0x3F, 0x20, 0xFF, 0])
     = [[97], [97], [98]]"
  by (simp add: parse_status_def is_cont_def low6_def second_ok_def Let_def)

lemma get_changed_files_completed:
  "status_res w = Completed 0 out err \<Longrightarrow>
   get_changed_files w st =
     (Inr (parse_status (Some out)), emit (Exec git_status_args (Completed 0 out err)) st)"
  by (simp add: get_changed_files_def run_git_command_def subprocess_run_def)

text \<open>
  C4. For every output of the status query that ended with return code 0,
  \<open>get_changed_files\<close> returns what the specification describes: the output split at the
  null bytes (the pieces joined by null bytes are the output again, and no piece holds a
  null byte), without the empty records, each record without its first three bytes and
  decoded, without the paths that came out empty (an empty rest decodes to the empty
  path); the paths stand in the order of the records, and nothing removes a duplicate.
\<close>

theorem get_changed_files_enumerates:
  "fst (get_changed_files (w\<lparr>status_res := Completed 0 out err\<rparr>) st)
     = Inr (enumerate_changes_spec out)
   \<and> join_bytes 0 (split_bytes 0 out) = out
   \<and> 0 \<notin> set (concat (split_bytes 0 out))
   \<and> utf8_decode_ignore [] = []"
proof -
  have "status_res (w\<lparr>status_res := Completed 0 out err\<rparr>) = Completed 0 out err"
    by simp
  then have "fst (get_changed_files (w\<lparr>status_res := Completed 0 out err\<rparr>) st)
      = Inr (parse_status (Some out))"
    by (simp only: get_changed_files_completed fst_conv)
  then have enumerated:
    "fst (get_changed_files (w\<lparr>status_res := Completed 0 out err\<rparr>) st)
      = Inr (enumerate_changes_spec out)"
    by (simp only: parse_status_spec)
  have decoded: "utf8_decode_ignore [] = []"
    by simp
  from enumerated join_split_bytes [of 0 out] split_bytes_no_sep [of 0 out] decoded
  show ?thesis
    by (intro conjI)
qed

section \<open>The partition into batches\<close>

lemma num_batches_bounds:
  assumes "1 \<le> B"
  shows "N \<le> num_batches_of B N * B" and "num_batches_of B N * B < N + B"
proof -
  let ?M = "N + B - 1"
  have a: "?M div B * B \<le> ?M"
    by (rule div_times_less_eq_dividend)
  have b: "?M < B + ?M div B * B"
    using assms by (intro dividend_less_div_times) simp
  show "N \<le> num_batches_of B N * B"
    using a b assms unfolding num_batches_of_def by linarith
  show "num_batches_of B N * B < N + B"
    using a b assms unfolding num_batches_of_def by linarith
qed

lemma num_batches_of_0: "num_batches_of B 0 = 0"
  by (cases B) (simp_all add: num_batches_of_def)

lemma batches_imp_paths:
  assumes "T = num_batches_of B (length all)" and "k < T"
  shows "all \<noteq> []"
proof
  assume "all = []"
  with assms show False by (simp add: num_batches_of_0)
qed

lemma num_batches_ceiling:
  assumes "1 \<le> B"
  shows "int (num_batches_of B N) = \<lceil>real N / real B\<rceil>"
proof -
  let ?T = "num_batches_of B N"
  have B: "0 < real B"
    using assms by simp
  have "real N \<le> real (?T * B)"
    using num_batches_bounds(1) [OF assms, of N] by (simp only: of_nat_le_iff)
  then have up: "real N / real B \<le> real ?T"
    using B by (simp add: pos_divide_le_eq)
  have "real (?T * B) < real (N + B)"
    using num_batches_bounds(2) [OF assms, of N] by (simp only: of_nat_less_iff)
  then have "(real ?T - 1) * real B < real N"
    by (simp add: algebra_simps)
  then have lo: "real ?T - 1 < real N / real B"
    using B by (simp only: pos_less_divide_eq)
  have "\<lceil>real N / real B\<rceil> = int ?T"
    by (rule ceiling_unique) (use up lo in simp_all)
  then show ?thesis by simp
qed

lemma num_batches_last:
  assumes "1 \<le> B" "0 < N"
  shows "N - (num_batches_of B N - 1) * B = (if N mod B = 0 then B else N mod B)"
proof -
  let ?T = "num_batches_of B N"
  let ?L = "N - (?T - 1) * B"
  note bd = num_batches_bounds [OF assms(1), of N]
  have "1 \<le> ?T"
    using bd(1) assms(2) by (cases "?T") auto
  then have TB: "?T * B = (?T - 1) * B + B"
    by (cases "?T") auto
  have lo: "(?T - 1) * B < N"
    using bd(2) TB by linarith
  have up: "?L \<le> B"
    using bd(1) TB by linarith
  have pos: "0 < ?L"
    using lo by simp
  have "N = ?L + (?T - 1) * B"
    using lo by simp
  then have "N mod B = (?L + (?T - 1) * B) mod B"
    by simp
  then have m: "N mod B = ?L mod B"
    by (simp only: mod_mult_self1)
  show ?thesis
  proof (cases "?L = B")
    case True
    then show ?thesis using m by simp
  next
    case False
    then have "?L < B" using up by simp
    then show ?thesis using m pos by simp
  qed
qed

lemma concat_slices:
  "concat (map (\<lambda>i. drop (i * B) (take (i * B + B) xs)) [0..<n]) = take (n * B) xs"
proof (induction n)
  case 0
  show ?case by simp
next
  case (Suc n)
  have "take (n * B + B) xs = take (n * B) xs @ drop (n * B) (take (n * B + B) xs)"
    by (metis append_take_drop_id min.absorb1 take_take le_add1)
  with Suc show ?case by (simp add: add.commute)
qed

lemma batch_files_of_alt: "batch_files_of B xs i = drop (i * B) (take (i * B + B) xs)"
  by (simp add: batch_files_of_def slice_def Let_def min_def)

lemma batch_files_of_contiguous: "batch_files_of B xs i = take B (drop (i * B) xs)"
  by (simp add: batch_files_of_alt drop_take)

lemma concat_batches:
  assumes "1 \<le> B"
  shows "concat (map (batch_files_of B xs) [0..<num_batches_of B (length xs)]) = xs"
proof -
  have "batch_files_of B xs = (\<lambda>i. drop (i * B) (take (i * B + B) xs))"
    by (rule ext) (rule batch_files_of_alt)
  then show ?thesis
    using num_batches_bounds(1) [OF assms, of "length xs"] by (simp add: concat_slices)
qed

lemma length_batch_files_of:
  "length (batch_files_of B xs i) = min (i * B + B) (length xs) - i * B"
  by (simp add: batch_files_of_def slice_def Let_def)

lemma length_batch_full:
  assumes "1 \<le> B" "i + 1 < num_batches_of B (length xs)"
  shows "length (batch_files_of B xs i) = B"
proof -
  let ?T = "num_batches_of B (length xs)"
  have "(i + 2) * B \<le> ?T * B"
    using assms(2) by (intro mult_le_mono1) simp
  then have "i * B + B + B \<le> ?T * B"
    by (simp add: algebra_simps)
  with num_batches_bounds(2) [OF assms(1), of "length xs"]
  have "i * B + B \<le> length xs"
    by linarith
  then show ?thesis by (simp add: length_batch_files_of)
qed

lemma length_batch_last:
  assumes "1 \<le> B" "xs \<noteq> []"
  shows "length (batch_files_of B xs (num_batches_of B (length xs) - 1)) =
         (if length xs mod B = 0 then B else length xs mod B)"
proof -
  let ?T = "num_batches_of B (length xs)"
  have N: "0 < length xs"
    using assms(2) by simp
  note bd = num_batches_bounds [OF assms(1), of "length xs"]
  have "1 \<le> ?T"
    using bd(1) N by (cases "?T") auto
  then have TB: "?T * B = (?T - 1) * B + B"
    by (cases "?T") auto
  have "min ((?T - 1) * B + B) (length xs) = length xs"
    using bd(1) TB by simp
  then have "length (batch_files_of B xs (?T - 1)) = length xs - (?T - 1) * B"
    by (simp only: length_batch_files_of)
  then show ?thesis
    using num_batches_last [OF assms(1) N] by simp
qed

text \<open>
  C2. For every list of paths and every batch size \<open>B \<ge> 1\<close>: the number of batches is
  the ceiling of N / B; every batch but the last has B paths; the last has N mod B
  paths, or B when N mod B = 0; batch \<open>i\<close> is the run of at most B paths that starts at
  index \<open>i * B\<close>; and the batches, one after the other, are the list itself.
\<close>

theorem partition_into_batches:
  assumes "1 \<le> B"
  shows "int (num_batches_of B (length xs)) = \<lceil>real (length xs) / real B\<rceil>
     \<and> (\<forall>i. i + 1 < num_batches_of B (length xs) \<longrightarrow> length (batch_files_of B xs i) = B)
     \<and> (xs \<noteq> [] \<longrightarrow>
          length (batch_files_of B xs (num_batches_of B (length xs) - 1)) =
            (if length xs mod B = 0 then B else length xs mod B))
     \<and> (\<forall>i. batch_files_of B xs i = take B (drop (i * B) xs))
     \<and> concat (map (batch_files_of B xs) [0..<num_batches_of B (length xs)]) = xs"
proof (intro conjI allI impI)
  show "int (num_batches_of B (length xs)) = \<lceil>real (length xs) / real B\<rceil>"
    by (rule num_batches_ceiling [OF assms])
next
  fix i
  assume "i + 1 < num_batches_of B (length xs)"
  then show "length (batch_files_of B xs i) = B"
    by (rule length_batch_full [OF assms])
next
  assume "xs \<noteq> []"
  then show "length (batch_files_of B xs (num_batches_of B (length xs) - 1)) =
      (if length xs mod B = 0 then B else length xs mod B)"
    by (rule length_batch_last [OF assms])
next
  fix i
  show "batch_files_of B xs i = take B (drop (i * B) xs)"
    by (rule batch_files_of_contiguous)
next
  show "concat (map (batch_files_of B xs) [0..<num_batches_of B (length xs)]) = xs"
    by (rule concat_batches [OF assms])
qed

theorem partition_into_batches_witness:
  "(1::nat) \<le> 2
   \<and> int (num_batches_of 2 (length [[97], [98], [99], [100], [101::nat]])) = 3
   \<and> map (batch_files_of 2 [[97], [98], [99], [100], [101::nat]]) [0..<3]
       = [[[97], [98]], [[99], [100]], [[101]]]
   \<and> concat (map (batch_files_of 2 [[97], [98], [99], [100], [101::nat]]) [0..<3])
       = [[97], [98], [99], [100], [101]]"
  using partition_into_batches [of 2 "[[97], [98], [99], [100], [101::nat]]"]
  by (simp add: num_batches_of_def batch_files_of_def slice_def upt_rec)

section \<open>The temporary file\<close>

lemma write_paths_concat:
  "write_paths paths written = written @ concat (map (\<lambda>p. p @ [10]) paths)"
  by (induction paths arbitrary: written) simp_all

lemma file_content_concat: "file_content paths = concat (map (\<lambda>p. p @ [10]) paths)"
  by (simp add: file_content_def write_paths_concat)

text \<open>
  C10. The content of the temporary file is every path of the batch followed by a
  newline, and this function of the batch is not injective. The status output with the
  one record of the path \<open>a\<close>, newline, \<open>b\<close> is enumerated as that one path; the output
  with the two records of \<open>a\<close> and of \<open>b\<close> is enumerated as two paths; the two batches
  differ and give the same file.
\<close>

theorem file_content_not_injective:
  "(\<forall>paths. file_content paths = concat (map (\<lambda>p. p @ [10]) paths))
   \<and> \<not> inj file_content
   \<and> parse_status (Some [0x3F, 0x3F, 0x20, 0x61, 0x0A, 0x62, 0]) = [[97, 10, 98]]
   \<and> parse_status (Some [0x3F, 0x3F, 0x20, 0x61, 0, 0x3F, 0x3F, 0x20, 0x62, 0])
       = [[97], [98]]
   \<and> [[97, 10, 98]] \<noteq> [[97], [98::nat]]
   \<and> file_content [[97, 10, 98]] = file_content [[97], [98]]"
proof -
  have same: "file_content [[97, 10, 98]] = file_content [[97], [98]]"
    by (simp add: file_content_def)
  have differ: "[[97, 10, 98]] \<noteq> [[97], [98::nat]]"
    by simp
  have "\<not> inj file_content"
  proof
    assume "inj file_content"
    then have "[[97, 10, 98]] = [[97], [98::nat]]"
      using same by (rule injD)
    with differ show False ..
  qed
  moreover have "parse_status (Some [0x3F, 0x3F, 0x20, 0x61, 0x0A, 0x62, 0]) = [[97, 10, 98]]"
    by (simp add: parse_status_def)
  moreover have
    "parse_status (Some [0x3F, 0x3F, 0x20, 0x61, 0, 0x3F, 0x3F, 0x20, 0x62, 0]) = [[97], [98]]"
    by (simp add: parse_status_def)
  ultimately show ?thesis
    using same differ file_content_concat by (intro conjI allI)
qed

section \<open>One batch and the loop\<close>

lemmas step_defs = process_batch_def try_suite_def finally_clause_def subprocess_run_def
  emit_def write_file_def remove_file_def Let_def

lemma exit_zero_cases:
  assumes "exit_zero r"
  obtains out err where "r = Completed 0 out err"
  using assms by (cases r) auto

lemma exit_nonzero_cases:
  assumes "exit_nonzero r"
  obtains rc out err where "r = Completed rc out err" "rc \<noteq> 0"
  using assms by (cases r) auto

lemma process_batch_succeeds:
  assumes "batch_succeeds w i"
  shows "process_batch B w all T i st =
    (Inr Continue,
     st\<lparr>trace := trace st @ batch_events B w all T i @ [RemoveFile list_file],
        fs := (fs st)(list_file := None)\<rparr>)"
proof -
  from assms have o: "\<not> open_raises w i" "\<not> remove_raises w i"
    and a: "exit_zero (add_res w i)"
    and c: "exit_zero (commit_res w i)" and p: "exit_zero (push_res w i)"
    by (simp_all add: batch_succeeds_def batch_committed_def file_ok_def)
  from a obtain o1 e1 where "add_res w i = Completed 0 o1 e1"
    by (rule exit_zero_cases)
  moreover from c obtain o2 e2 where "commit_res w i = Completed 0 o2 e2"
    by (rule exit_zero_cases)
  moreover from p obtain o3 e3 where "push_res w i = Completed 0 o3 e3"
    by (rule exit_zero_cases)
  ultimately show ?thesis
    using o by (simp add: step_defs batch_events_def)
qed


lemma process_batch_add_fails:
  assumes "file_ok w i" "add_res w i = Completed rc out err" "rc \<noteq> 0"
  shows "process_batch B w all T i st =
    (Inr Break,
     st\<lparr>trace := trace st @ take 3 (batch_events B w all T i)
             @ [Print (MsgException (CalledProcessError rc git_add_args err)),
                RemoveFile list_file],
        fs := (fs st)(list_file := None)\<rparr>)"
  using assms by (simp add: step_defs batch_events_def file_ok_def)

lemma process_batch_commit_fails:
  assumes "file_ok w i" "exit_zero (add_res w i)"
    "commit_res w i = Completed rc out err" "rc \<noteq> 0"
  shows "process_batch B w all T i st =
    (Inr Break,
     st\<lparr>trace := trace st @ take 4 (batch_events B w all T i)
             @ [Print (MsgException (CalledProcessError rc
                   (git_commit_args (commit_msg (i + 1) T)) err)),
                RemoveFile list_file],
        fs := (fs st)(list_file := None)\<rparr>)"
proof -
  from assms(2) obtain o1 e1 where "add_res w i = Completed 0 o1 e1"
    by (rule exit_zero_cases)
  then show ?thesis
    using assms(1,3,4) by (simp add: step_defs batch_events_def file_ok_def)
qed



lemma for_batches_succeed:
  assumes "\<forall>j\<in>set js. batch_succeeds w j"
  shows "for_batches B w all T js st =
     (None,
      st\<lparr>trace := trace st
             @ concat (map (\<lambda>j. batch_events B w all T j @ [RemoveFile list_file]) js),
         fs := (if js = [] then fs st else (fs st)(list_file := None))\<rparr>)"
  using assms
proof (induction js arbitrary: st)
  case Nil
  show ?case by simp
next
  case (Cons j js)
  then show ?case
    by (simp add: process_batch_succeeds fun_upd_def cong: if_cong)
qed

lemma for_batches_append:
  assumes "\<forall>j\<in>set js. batch_succeeds w j"
  shows "for_batches B w all T (js @ rest) st =
         for_batches B w all T rest (snd (for_batches B w all T js st))"
  using assms by (induction js arbitrary: st) (simp_all add: process_batch_succeeds)

lemma run_main_batches:
  assumes "status_res w = Completed 0 out err" "parse_status (Some out) \<noteq> []"
  shows "run_main B w st =
    (case for_batches B w (parse_status (Some out))
         (num_batches_of B (length (parse_status (Some out))))
         [0..<num_batches_of B (length (parse_status (Some out)))]
         (st\<lparr>trace := trace st
               @ [Print MsgFetching, Exec git_status_args (Completed 0 out err),
                  Print (MsgFound (length (parse_status (Some out))))]\<rparr>) of
       (Some e, st4) \<Rightarrow> (Unhandled e, st4)
     | (None, st4) \<Rightarrow> (Returned, emit (Print MsgFinished) st4))"
  using assms
  by (simp add: run_main_def get_changed_files_def run_git_command_def subprocess_run_def
      Let_def emit_def)

section \<open>Views of the trace\<close>

lemma new_events_append [simp]: "new_events st (st'\<lparr>trace := trace st @ tr\<rparr>) = tr"
  by (simp add: new_events_def)

lemma new_events_append_fs [simp]:
  "new_events st (st'\<lparr>trace := trace st @ tr, fs := f\<rparr>) = tr"
  by (simp add: new_events_def)

lemma execs_append [simp]: "execs (xs @ ys) = execs xs @ execs ys"
  by (induction xs rule: execs.induct) simp_all

lemma writes_append [simp]: "writes (xs @ ys) = writes xs @ writes ys"
  by (induction xs rule: writes.induct) simp_all

lemma handled_append [simp]: "handled (xs @ ys) = handled xs @ handled ys"
  by (induction xs rule: handled.induct) simp_all

lemma execs_concat: "execs (concat (map f js)) = concat (map (\<lambda>j. execs (f j)) js)"
  by (induction js) simp_all

lemma writes_concat: "writes (concat (map f js)) = concat (map (\<lambda>j. writes (f j)) js)"
  by (induction js) simp_all

lemma handled_concat: "handled (concat (map f js)) = concat (map (\<lambda>j. handled (f j)) js)"
  by (induction js) simp_all

lemma execs_batch_events [simp]: "execs (batch_events B w all T j) = batch_commands w T j"
  by (simp add: batch_events_def batch_commands_def)

lemma writes_batch_events [simp]:
  "writes (batch_events B w all T j) = [(list_file, file_content (batch_files_of B all j))]"
  by (simp add: batch_events_def)

lemma handled_batch_events [simp]: "handled (batch_events B w all T j) = []"
  by (simp add: batch_events_def)

lemma run_phases_append:
  "run_phases p (xs @ ys) =
     (case run_phases p xs of None \<Rightarrow> None | Some q \<Rightarrow> run_phases q ys)"
  by (induction xs arbitrary: p) (simp_all split: option.splits)

lemma upt_split: "k < T \<Longrightarrow> [0..<T] = [0..<k] @ k # [Suc k..<T]"
  using upt_add_eq_append [of 0 k "T - k"] by (simp add: upt_conv_Cons)

section \<open>A push that fails\<close>



section \<open>Concrete runs\<close>

lemma split_bytes_record:
  "split_bytes 0 ([0x3F, 0x3F, 0x20, 0x61, 0] @ bs) = [0x3F, 0x3F, 0x20, 0x61] # split_bytes 0 bs"
  by simp

lemma split_status_records:
  "split_bytes 0 (status_records n) = replicate n [0x3F, 0x3F, 0x20, 0x61] @ [[]]"
  unfolding status_records_def
proof (induction n)
  case 0 show ?case by simp
next
  case (Suc n)
  have "split_bytes 0 (concat (replicate (Suc n) [0x3F, 0x3F, 0x20, 0x61, 0]))
      = split_bytes 0 ([0x3F, 0x3F, 0x20, 0x61, 0] @ concat (replicate n [0x3F, 0x3F, 0x20, 0x61, 0]))"
    by simp
  also have "\<dots> = [0x3F, 0x3F, 0x20, 0x61] # split_bytes 0 (concat (replicate n [0x3F, 0x3F, 0x20, 0x61, 0]))"
    by (rule split_bytes_record)
  finally show ?case using Suc by simp
qed

lemma parse_status_records: "parse_status (Some (status_records n)) = replicate n [97]"
  by (simp add: parse_status_spec enumerate_changes_spec_def split_status_records)

lemmas example_defs = calm_world_def fresh_state_def batch_succeeds_def batch_committed_def
  file_ok_def stage_or_commit_error_def
  batch_commands_def git_status_args_def git_add_args_def git_commit_args_def git_push_args_def
  list_file_def commit_msg_def COMMIT_MSG_PREFIX_def str_nat.simps digit_char_def

lemmas run_defs = main_def run_main_def get_changed_files_def run_git_command_def
  parse_status_def num_batches_of_def batch_files_of_def slice_def file_content_def
  BATCH_SIZE_def is_cont_def low6_def second_ok_def


section \<open>A staging or commit command that fails\<close>

lemma run_main_add_fails:
  assumes "status_res w = Completed 0 out err"
    and "all = parse_status (Some out)" and "all \<noteq> []"
    and "T = num_batches_of B (length all)" and "k < T"
    and "\<forall>j<k. batch_succeeds w j"
    and "file_ok w k" and "add_res w k = Completed rc out' err'" and "rc \<noteq> 0"
  shows "run_main B w st =
    (Returned,
     st\<lparr>trace := trace st
           @ [Print MsgFetching, Exec git_status_args (Completed 0 out err),
              Print (MsgFound (length all))]
           @ concat (map (\<lambda>j. batch_events B w all T j @ [RemoveFile list_file]) [0..<k])
           @ take 3 (batch_events B w all T k)
           @ [Print (MsgException (CalledProcessError rc git_add_args err')),
              RemoveFile list_file, Print MsgFinished],
        fs := (fs st)(list_file := None)\<rparr>)"
proof -
  have ok: "\<forall>j\<in>set [0..<k]. batch_succeeds w j"
    using assms(6) by simp
  have "[0..<T] = [0..<k] @ k # [Suc k..<T]"
    using assms(5) by (rule upt_split)
  then show ?thesis
    using assms(1-4)
    by (simp add: run_main_batches for_batches_append [OF ok] for_batches_succeed [OF ok]
        process_batch_add_fails [OF assms(7,8,9)] emit_def)
qed

lemma run_main_commit_fails:
  assumes "status_res w = Completed 0 out err"
    and "all = parse_status (Some out)" and "all \<noteq> []"
    and "T = num_batches_of B (length all)" and "k < T"
    and "\<forall>j<k. batch_succeeds w j"
    and "file_ok w k" and "exit_zero (add_res w k)"
    and "commit_res w k = Completed rc out' err'" and "rc \<noteq> 0"
  shows "run_main B w st =
    (Returned,
     st\<lparr>trace := trace st
           @ [Print MsgFetching, Exec git_status_args (Completed 0 out err),
              Print (MsgFound (length all))]
           @ concat (map (\<lambda>j. batch_events B w all T j @ [RemoveFile list_file]) [0..<k])
           @ take 4 (batch_events B w all T k)
           @ [Print (MsgException (CalledProcessError rc
                 (git_commit_args (commit_msg (k + 1) T)) err')),
              RemoveFile list_file, Print MsgFinished],
        fs := (fs st)(list_file := None)\<rparr>)"
proof -
  have ok: "\<forall>j\<in>set [0..<k]. batch_succeeds w j"
    using assms(6) by simp
  have "[0..<T] = [0..<k] @ k # [Suc k..<T]"
    using assms(5) by (rule upt_split)
  then show ?thesis
    using assms(1-4)
    by (simp add: run_main_batches for_batches_append [OF ok] for_batches_succeed [OF ok]
        process_batch_commit_fails [OF assms(7,8,9,10)] emit_def)
qed

lemma take_batch_events:
  "execs (take 3 (batch_events B w all T k)) = take 1 (batch_commands w T k)"
  "execs (take 4 (batch_events B w all T k)) = take 2 (batch_commands w T k)"
  "handled (take 3 (batch_events B w all T k)) = []"
  "handled (take 4 (batch_events B w all T k)) = []"
  "writes (take 3 (batch_events B w all T k))
     = [(list_file, file_content (batch_files_of B all k))]"
  "writes (take 4 (batch_events B w all T k))
     = [(list_file, file_content (batch_files_of B all k))]"
  by (simp_all add: batch_events_def batch_commands_def)

text \<open>
  C1, as the source has it. The claim says that the run ends with an unhandled error.
  In the source \<open>git add\<close> and \<open>git commit\<close> run inside the \<open>try\<close> whose handler catches
  \<open>Exception\<close>, prints a line and leaves the loop. With one changed path and a \<open>git add\<close>
  that ends with return code 1, \<open>main\<close> returns, the exit status is 0, and the trace is
  the one below: the error is printed by the handler, no commit and no push is run, the
  file is removed, and the closing line is printed.
\<close>

theorem staging_failure_counterexample:
  "exit_nonzero (add_res ((calm_world [0x3F, 0x3F, 0x20, 0x61, 0])
       \<lparr>add_res := (\<lambda>i. Completed 1 [] [])\<rparr>) 0)
   \<and> main ((calm_world [0x3F, 0x3F, 0x20, 0x61, 0])\<lparr>add_res := (\<lambda>i. Completed 1 [] [])\<rparr>)
        fresh_state
      = (Returned,
         \<lparr>trace =
            [Print MsgFetching,
             Exec [''git'', ''status'', ''--porcelain'', ''-z'']
               (Completed 0 [0x3F, 0x3F, 0x20, 0x61, 0] []),
             Print (MsgFound 1),
             Print (MsgProgress 1 1 1),
             WriteFile ''temp_batch_list.txt'' [97, 10],
             Exec [''git'', ''add'', ''--pathspec-from-file=temp_batch_list.txt'']
               (Completed 1 [] []),
             Print (MsgException (CalledProcessError 1
               [''git'', ''add'', ''--pathspec-from-file=temp_batch_list.txt''] [])),
             RemoveFile ''temp_batch_list.txt'',
             Print MsgFinished],
          fs = (\<lambda>name. None)\<rparr>)
   \<and> exit_status (fst (main ((calm_world [0x3F, 0x3F, 0x20, 0x61, 0])
       \<lparr>add_res := (\<lambda>i. Completed 1 [] [])\<rparr>) fresh_state)) = 0"
  by (simp add: run_defs step_defs example_defs fun_eq_iff)

text \<open>
  C1, amended. Every batch before the one with loop index \<open>k\<close> succeeds, the file
  operations of batch \<open>k\<close> succeed, and \<open>git add\<close> ends with a return code other than 0,
  or \<open>git add\<close> ends with 0 and \<open>git commit\<close> with another code. Then the error is caught
  by the loop's handler and printed (exactly one exception is handled, the
  \<open>CalledProcessError\<close> of the command that failed), \<open>main\<close> returns and the exit status
  is 0; of batch \<open>k\<close> only \<open>git add\<close> was run when it was the one to fail, and only
  \<open>git add\<close> and \<open>git commit\<close> otherwise; the file of no later batch is written and no
  later command is run; the run ends with the handler's line, the removal of the
  temporary file and the closing line, in this order; and the temporary file is gone.
\<close>

theorem stage_or_commit_failure_is_handled:
  assumes "status_res w = Completed 0 out err"
    and "all = parse_status (Some out)"
    and "T = num_batches_of B (length all)" and "k < T"
    and "\<forall>j<k. batch_succeeds w j"
    and "file_ok w k"
    and "exit_nonzero (add_res w k)
         \<or> exit_zero (add_res w k) \<and> exit_nonzero (commit_res w k)"
  shows "fst (run_main B w st) = Returned
     \<and> exit_status (fst (run_main B w st)) = 0
     \<and> execs (new_events st (snd (run_main B w st)))
         = (git_status_args, status_res w) # concat (map (batch_commands w T) [0..<k])
           @ take (if exit_nonzero (add_res w k) then 1 else 2) (batch_commands w T k)
     \<and> writes (new_events st (snd (run_main B w st)))
         = map (\<lambda>j. (list_file, file_content (batch_files_of B all j))) [0..<Suc k]
     \<and> handled (new_events st (snd (run_main B w st))) = [stage_or_commit_error w T k]
     \<and> (\<exists>rc args err'. rc \<noteq> 0
           \<and> stage_or_commit_error w T k = CalledProcessError rc args err')
     \<and> (\<exists>before. new_events st (snd (run_main B w st))
           = before @ [Print (MsgException (stage_or_commit_error w T k)),
                       RemoveFile list_file, Print MsgFinished])
     \<and> fs (snd (run_main B w st)) list_file = None"
proof (cases "exit_nonzero (add_res w k)")
  case True
  note ne = batches_imp_paths [OF assms(3,4)]
  from True obtain rc out' err' where r: "add_res w k = Completed rc out' err'" "rc \<noteq> 0"
    by (rule exit_nonzero_cases)
  note run = run_main_add_fails [OF assms(1,2) ne assms(3-6) r, of st]
  let ?before = "[Print MsgFetching, Exec git_status_args (Completed 0 out err),
              Print (MsgFound (length all))]
           @ concat (map (\<lambda>j. batch_events B w all T j @ [RemoveFile list_file]) [0..<k])
           @ take 3 (batch_events B w all T k)"
  have e: "execs (new_events st (snd (run_main B w st)))
         = (git_status_args, status_res w) # concat (map (batch_commands w T) [0..<k])
           @ take 1 (batch_commands w T k)"
    by (simp add: run execs_concat take_batch_events assms(1))
  have wr: "writes (new_events st (snd (run_main B w st)))
         = map (\<lambda>j. (list_file, file_content (batch_files_of B all j))) [0..<Suc k]"
    by (simp add: run writes_concat take_batch_events)
  have h: "handled (new_events st (snd (run_main B w st)))
         = [CalledProcessError rc git_add_args err']"
    by (simp add: run handled_concat take_batch_events)
  have t: "new_events st (snd (run_main B w st))
         = ?before @ [Print (MsgException (CalledProcessError rc git_add_args err')),
                      RemoveFile list_file, Print MsgFinished]"
    by (simp add: run)
  have x: "stage_or_commit_error w T k = CalledProcessError rc git_add_args err'"
    using True r(1) by (simp add: stage_or_commit_error_def)
  have "\<exists>before. new_events st (snd (run_main B w st))
           = before @ [Print (MsgException (stage_or_commit_error w T k)),
                       RemoveFile list_file, Print MsgFinished]"
    unfolding x using t by (intro exI [of _ ?before])
  moreover have "\<exists>rc args err'. rc \<noteq> 0
           \<and> stage_or_commit_error w T k = CalledProcessError rc args err'"
    using x r(2) by blast
  moreover note h [folded x]
  moreover have "fst (run_main B w st) = Returned" "fs (snd (run_main B w st)) list_file = None"
    by (simp_all add: run)
  ultimately show ?thesis
    using True e wr by simp
next
  case False
  note ne = batches_imp_paths [OF assms(3,4)]
  from False assms(7) have a: "exit_zero (add_res w k)" and c: "exit_nonzero (commit_res w k)"
    by auto
  from c obtain rc out' err' where r: "commit_res w k = Completed rc out' err'" "rc \<noteq> 0"
    by (rule exit_nonzero_cases)
  note run = run_main_commit_fails [OF assms(1,2) ne assms(3-6) a r, of st]
  let ?args = "git_commit_args (commit_msg (k + 1) T)"
  let ?before = "[Print MsgFetching, Exec git_status_args (Completed 0 out err),
              Print (MsgFound (length all))]
           @ concat (map (\<lambda>j. batch_events B w all T j @ [RemoveFile list_file]) [0..<k])
           @ take 4 (batch_events B w all T k)"
  have e: "execs (new_events st (snd (run_main B w st)))
         = (git_status_args, status_res w) # concat (map (batch_commands w T) [0..<k])
           @ take 2 (batch_commands w T k)"
    by (simp add: run execs_concat take_batch_events assms(1))
  have wr: "writes (new_events st (snd (run_main B w st)))
         = map (\<lambda>j. (list_file, file_content (batch_files_of B all j))) [0..<Suc k]"
    by (simp add: run writes_concat take_batch_events)
  have h: "handled (new_events st (snd (run_main B w st)))
         = [CalledProcessError rc ?args err']"
    by (simp add: run handled_concat take_batch_events)
  have t: "new_events st (snd (run_main B w st))
         = ?before @ [Print (MsgException (CalledProcessError rc ?args err')),
                      RemoveFile list_file, Print MsgFinished]"
    by (simp add: run)
  have x: "stage_or_commit_error w T k = CalledProcessError rc ?args err'"
    using False r(1) by (simp add: stage_or_commit_error_def)
  have "\<exists>before. new_events st (snd (run_main B w st))
           = before @ [Print (MsgException (stage_or_commit_error w T k)),
                       RemoveFile list_file, Print MsgFinished]"
    unfolding x using t by (intro exI [of _ ?before])
  moreover have "\<exists>rc args err'. rc \<noteq> 0
           \<and> stage_or_commit_error w T k = CalledProcessError rc args err'"
    using x r(2) by blast
  moreover note h [folded x]
  moreover have "fst (run_main B w st) = Returned" "fs (snd (run_main B w st)) list_file = None"
    by (simp_all add: run)
  ultimately show ?thesis
    using False e wr by simp
qed

theorem stage_or_commit_failure_is_handled_witness:
  "exit_nonzero (add_res ((calm_world (status_records 1200))
       \<lparr>add_res := (\<lambda>i. if i = 1 then Completed 128 [] [] else Completed 0 [] [])\<rparr>) 1)
   \<and> fst (main ((calm_world (status_records 1200))
          \<lparr>add_res := (\<lambda>i. if i = 1 then Completed 128 [] [] else Completed 0 [] [])\<rparr>)
        fresh_state) = Returned
   \<and> map fst (execs (trace (snd (main ((calm_world (status_records 1200))
          \<lparr>add_res := (\<lambda>i. if i = 1 then Completed 128 [] [] else Completed 0 [] [])\<rparr>)
        fresh_state))))
      = [[''git'', ''status'', ''--porcelain'', ''-z''],
         [''git'', ''add'', ''--pathspec-from-file=temp_batch_list.txt''],
         [''git'', ''commit'', ''-m'', ''Auto-batch commit: Part 1 of 3''],
         [''git'', ''push''],
         [''git'', ''add'', ''--pathspec-from-file=temp_batch_list.txt'']]
   \<and> fs (snd (main ((calm_world (status_records 1200))
          \<lparr>add_res := (\<lambda>i. if i = 1 then Completed 128 [] [] else Completed 0 [] [])\<rparr>)
        fresh_state)) list_file = None
   \<and> handled (trace (snd (main ((calm_world (status_records 1200))
          \<lparr>add_res := (\<lambda>i. if i = 1 then Completed 128 [] [] else Completed 0 [] [])\<rparr>)
        fresh_state)))
      = [CalledProcessError 128
           [''git'', ''add'', ''--pathspec-from-file=temp_batch_list.txt''] []]
   \<and> last (trace (snd (main ((calm_world (status_records 1200))
          \<lparr>add_res := (\<lambda>i. if i = 1 then Completed 128 [] [] else Completed 0 [] [])\<rparr>)
        fresh_state))) = Print MsgFinished"
proof -
  let ?w = "(calm_world (status_records 1200))
          \<lparr>add_res := (\<lambda>i. if i = 1 then Completed 128 [] [] else Completed 0 [] [])\<rparr>"
  have h1: "status_res ?w = Completed 0 (status_records 1200) []"
    by (simp add: calm_world_def)
  have h2: "replicate 1200 [97] = parse_status (Some (status_records 1200))"
    by (simp add: parse_status_records)
  have h4: "3 = num_batches_of BATCH_SIZE (length (replicate 1200 [97::nat]))"
    by (simp add: num_batches_of_def BATCH_SIZE_def)
  have h5: "(1::nat) < 3"
    by simp
  have h6: "\<forall>j<1. batch_succeeds ?w j"
    by (simp add: calm_world_def batch_succeeds_def batch_committed_def file_ok_def)
  have h7: "file_ok ?w 1"
    by (simp add: calm_world_def file_ok_def)
  have h8: "exit_nonzero (add_res ?w 1)
      \<or> exit_zero (add_res ?w 1) \<and> exit_nonzero (commit_res ?w 1)"
    by simp
  note th = stage_or_commit_failure_is_handled [OF h1 h2 h4 h5 h6 h7 h8, of fresh_state]
  have n: "new_events fresh_state st' = trace st'" for st'
    by (simp add: new_events_def fresh_state_def)
  from th show ?thesis
    unfolding main_def n
    by (auto simp add: example_defs)
qed

section \<open>The scenario of 1200 paths\<close>

lemma digit_value_digit_char: "d < 10 \<Longrightarrow> digit_value (digit_char d) = d"
proof -
  assume "d < 10"
  then have "d \<in> {0, 1, 2, 3, 4, 5, 6, 7, 8, 9}" by auto
  then show ?thesis
    by (auto simp add: digit_value_def digit_char_def)
qed

lemma decimal_value_snoc: "decimal_value (s @ [c]) = 10 * decimal_value s + digit_value c"
  by (simp add: decimal_value_def)

lemma decimal_value_str_nat: "decimal_value (str_nat n) = n"
proof (induction n rule: str_nat.induct)
  case (1 n)
  show ?case
  proof (cases "n < 10")
    case True
    then show ?thesis
      by (subst str_nat.simps) (simp add: decimal_value_def digit_value_digit_char)
  next
    case False
    with 1 have "decimal_value (str_nat (n div 10)) = n div 10" by simp
    with False show ?thesis
      by (subst str_nat.simps) (simp add: decimal_value_snoc digit_value_digit_char)
  qed
qed

lemma run_main_all_succeed:
  assumes "status_res w = Completed 0 out err"
    and "all = parse_status (Some out)" and "all \<noteq> []"
    and "T = num_batches_of B (length all)"
    and "\<forall>j<T. batch_succeeds w j"
  shows "run_main B w st =
    (Returned,
     st\<lparr>trace := trace st
           @ [Print MsgFetching, Exec git_status_args (Completed 0 out err),
              Print (MsgFound (length all))]
           @ concat (map (\<lambda>j. batch_events B w all T j @ [RemoveFile list_file]) [0..<T])
           @ [Print MsgFinished],
        fs := (if T = 0 then fs st else (fs st)(list_file := None))\<rparr>)"
proof -
  have ok: "\<forall>j\<in>set [0..<T]. batch_succeeds w j"
    using assms(5) by simp
  have "run_main B w st =
    (case for_batches B w all T [0..<T]
         (st\<lparr>trace := trace st
               @ [Print MsgFetching, Exec git_status_args (Completed 0 out err),
                  Print (MsgFound (length all))]\<rparr>) of
       (Some e, st4) \<Rightarrow> (Unhandled e, st4)
     | (None, st4) \<Rightarrow> (Returned, emit (Print MsgFinished) st4))"
    using run_main_batches [OF assms(1), of B st] assms(2-4) by simp
  then show ?thesis
    by (simp add: for_batches_succeed [OF ok] emit_def)
qed

text \<open>
  C7. The status query gives 1200 paths and the three batches succeed. Then there are 3
  batches, of 500, 500 and 200 paths; the files written are those of the three batches;
  the commands of the run are the status query and, for each batch, \<open>git add\<close>,
  \<open>git commit\<close> with the message \<open>Auto-batch commit: Part i of 3\<close>, and \<open>git push\<close>. For
  every ordinal and every number of batches the message is the prefix, a space, the
  ordinal in decimal, \<open>of\<close> between spaces, and the number of batches in decimal.
\<close>

theorem scenario_1200_files:
  assumes "status_res w = Completed 0 out err"
    and "all = parse_status (Some out)" and "length all = 1200"
    and "\<forall>j<3. batch_succeeds w j"
  shows "num_batches_of BATCH_SIZE (length all) = 3
     \<and> map (\<lambda>i. length (batch_files_of BATCH_SIZE all i)) [0..<3] = [500, 500, 200]
     \<and> writes (new_events st (snd (main w st)))
         = map (\<lambda>i. (list_file, file_content (batch_files_of BATCH_SIZE all i))) [0..<3]
     \<and> map fst (execs (new_events st (snd (main w st))))
         = [git_status_args,
            git_add_args, git_commit_args ''Auto-batch commit: Part 1 of 3'', git_push_args,
            git_add_args, git_commit_args ''Auto-batch commit: Part 2 of 3'', git_push_args,
            git_add_args, git_commit_args ''Auto-batch commit: Part 3 of 3'', git_push_args]
     \<and> (\<forall>i T. commit_msg i T
            = ''Auto-batch commit: Part '' @ str_nat i @ '' of '' @ str_nat T
          \<and> decimal_value (str_nat i) = i \<and> decimal_value (str_nat T) = T)"
proof -
  have T: "3 = num_batches_of BATCH_SIZE (length all)"
    by (simp add: assms(3) num_batches_of_def BATCH_SIZE_def)
  have ne: "all \<noteq> []"
    using assms(3) by auto
  note run = run_main_all_succeed [OF assms(1,2) ne T assms(4), of st]
  have sizes: "map (\<lambda>i. length (batch_files_of BATCH_SIZE all i)) [0..<3] = [500, 500, 200]"
    by (simp add: length_batch_files_of assms(3) BATCH_SIZE_def upt_rec)
  have w: "writes (new_events st (snd (main w st)))
         = map (\<lambda>i. (list_file, file_content (batch_files_of BATCH_SIZE all i))) [0..<3]"
    by (simp add: main_def run writes_concat)
  have e: "map fst (execs (new_events st (snd (main w st))))
         = [git_status_args,
            git_add_args, git_commit_args ''Auto-batch commit: Part 1 of 3'', git_push_args,
            git_add_args, git_commit_args ''Auto-batch commit: Part 2 of 3'', git_push_args,
            git_add_args, git_commit_args ''Auto-batch commit: Part 3 of 3'', git_push_args]"
    by (simp add: main_def run execs_concat batch_commands_def upt_rec commit_msg_def
        COMMIT_MSG_PREFIX_def str_nat.simps digit_char_def)
  have m: "commit_msg i T = ''Auto-batch commit: Part '' @ str_nat i @ '' of '' @ str_nat T"
    for i T
    by (simp add: commit_msg_def COMMIT_MSG_PREFIX_def)
  from T sizes w e m decimal_value_str_nat show ?thesis
    by simp
qed

theorem scenario_1200_files_witness:
  "length (parse_status (Some (status_records 1200))) = 1200
   \<and> num_batches_of BATCH_SIZE 1200 = 3
   \<and> map (\<lambda>i. length (batch_files_of BATCH_SIZE (replicate 1200 [97::nat]) i)) [0..<3]
       = [500, 500, 200]
   \<and> map fst (execs (trace (snd (main (calm_world (status_records 1200)) fresh_state))))
       = [[''git'', ''status'', ''--porcelain'', ''-z''],
          [''git'', ''add'', ''--pathspec-from-file=temp_batch_list.txt''],
          [''git'', ''commit'', ''-m'', ''Auto-batch commit: Part 1 of 3''],
          [''git'', ''push''],
          [''git'', ''add'', ''--pathspec-from-file=temp_batch_list.txt''],
          [''git'', ''commit'', ''-m'', ''Auto-batch commit: Part 2 of 3''],
          [''git'', ''push''],
          [''git'', ''add'', ''--pathspec-from-file=temp_batch_list.txt''],
          [''git'', ''commit'', ''-m'', ''Auto-batch commit: Part 3 of 3''],
          [''git'', ''push'']]"
proof -
  let ?w = "calm_world (status_records 1200)"
  have h1: "status_res ?w = Completed 0 (status_records 1200) []"
    by (simp add: calm_world_def)
  have h2: "replicate 1200 [97] = parse_status (Some (status_records 1200))"
    by (simp add: parse_status_records)
  have h3: "length (replicate 1200 [97::nat]) = 1200"
    by simp
  have h4: "\<forall>j<3. batch_succeeds ?w j"
    by (simp add: calm_world_def batch_succeeds_def batch_committed_def file_ok_def)
  note th = scenario_1200_files [OF h1 h2 h3 h4, of fresh_state]
  have n: "new_events fresh_state st' = trace st'" for st'
    by (simp add: new_events_def fresh_state_def)
  from th show ?thesis
    unfolding n
    by (simp add: parse_status_records git_status_args_def git_add_args_def git_commit_args_def
        git_push_args_def list_file_def)
qed

section \<open>A status query that fails, and an empty list of changes\<close>

lemma run_main_status_fails:
  assumes "status_res w = Completed rc out err" "rc \<noteq> 0"
  shows "run_main B w st =
    (Returned,
     st\<lparr>trace := trace st
           @ [Print MsgFetching, Exec git_status_args (Completed rc out err),
              Print (MsgCommandFailed (join_spaces git_status_args)),
              Print (MsgErrorInfo (utf8_decode_ignore err)),
              Print MsgNoFiles]\<rparr>)"
  using assms
  by (simp add: run_main_def get_changed_files_def run_git_command_def subprocess_run_def
      parse_status_def Let_def emit_def)

lemma run_main_status_empty:
  assumes "status_res w = Completed 0 out err" "parse_status (Some out) = []"
  shows "run_main B w st =
    (Returned,
     st\<lparr>trace := trace st
           @ [Print MsgFetching, Exec git_status_args (Completed 0 out err),
              Print MsgNoFiles]\<rparr>)"
  using assms
  by (simp add: run_main_def get_changed_files_def run_git_command_def subprocess_run_def
      Let_def emit_def)

text \<open>
  C5, as the source has it. The claim says that a status query that fails cannot be told
  from an empty set of changes at the public interface. The handler of \<open>run_git_command\<close>
  prints two lines before it returns \<open>None\<close>. With a status query that ends with return
  code 128 and the word \<open>fatal\<close> on its standard error, four lines are printed; with a
  status query that ends with return code 0 and an empty output, only the first and the
  last of them. Standard output tells the two runs apart.
\<close>

theorem failed_status_query_counterexample:
  "exit_nonzero (status_res ((calm_world [])
      \<lparr>status_res := Completed 128 [] [0x66, 0x61, 0x74, 0x61, 0x6C]\<rparr>))
   \<and> printed (trace (snd (main ((calm_world [])
          \<lparr>status_res := Completed 128 [] [0x66, 0x61, 0x74, 0x61, 0x6C]\<rparr>) fresh_state)))
       = [MsgFetching,
          MsgCommandFailed ''git status --porcelain -z'',
          MsgErrorInfo [102, 97, 116, 97, 108],
          MsgNoFiles]
   \<and> exit_zero (status_res (calm_world []))
   \<and> parse_status (Some []) = []
   \<and> printed (trace (snd (main (calm_world []) fresh_state))) = [MsgFetching, MsgNoFiles]
   \<and> printed (trace (snd (main ((calm_world [])
          \<lparr>status_res := Completed 128 [] [0x66, 0x61, 0x74, 0x61, 0x6C]\<rparr>) fresh_state)))
       \<noteq> printed (trace (snd (main (calm_world []) fresh_state)))"
  by (simp add: run_defs step_defs example_defs)

text \<open>
  C5, amended. The status query ends with a return code other than 0. Then
  \<open>run_git_command\<close> catches the error and returns \<open>None\<close>, \<open>get_changed_files\<close> returns the
  empty list, and \<open>main\<close> goes on as it does when nothing has changed: it prints that
  there are no files and returns, so the exit status is 0. Set beside the run in which
  the query ends with code 0 and an empty output, the run has the same outcome, the same
  exit status, the same files, the same commands and the same last line. The two runs
  differ on standard output: the failing run prints, between the first line and the
  last, the line that names the command and the line with the decoded standard error.
\<close>

theorem failed_status_query_looks_empty:
  assumes "status_res w = Completed rc out err" and "rc \<noteq> 0"
  shows "fst (run_git_command git_status_args (status_res w) st) = Inr None
     \<and> fst (get_changed_files w st) = Inr []
     \<and> main w st =
         (Returned,
          st\<lparr>trace := trace st
                @ [Print MsgFetching, Exec git_status_args (status_res w),
                   Print (MsgCommandFailed ''git status --porcelain -z''),
                   Print (MsgErrorInfo (utf8_decode_ignore err)),
                   Print MsgNoFiles]\<rparr>)
     \<and> main (w\<lparr>status_res := Completed 0 [] []\<rparr>) st =
         (Returned,
          st\<lparr>trace := trace st
                @ [Print MsgFetching, Exec git_status_args (Completed 0 [] []),
                   Print MsgNoFiles]\<rparr>)
     \<and> fst (main w st) = fst (main (w\<lparr>status_res := Completed 0 [] []\<rparr>) st)
     \<and> exit_status (fst (main w st)) = 0
     \<and> fs (snd (main w st)) = fs (snd (main (w\<lparr>status_res := Completed 0 [] []\<rparr>) st))
     \<and> map fst (execs (new_events st (snd (main w st))))
         = map fst (execs (new_events st (snd (main (w\<lparr>status_res := Completed 0 [] []\<rparr>) st))))
     \<and> last (trace (snd (main w st)))
         = last (trace (snd (main (w\<lparr>status_res := Completed 0 [] []\<rparr>) st)))
     \<and> printed (new_events st (snd (main w st)))
         = [MsgFetching,
            MsgCommandFailed ''git status --porcelain -z'',
            MsgErrorInfo (utf8_decode_ignore err),
            MsgNoFiles]
     \<and> printed (new_events st (snd (main (w\<lparr>status_res := Completed 0 [] []\<rparr>) st)))
         = [MsgFetching, MsgNoFiles]"
proof -
  have none: "fst (run_git_command git_status_args (status_res w) st) = Inr None"
    using assms by (simp add: run_git_command_def subprocess_run_def)
  have nil: "fst (get_changed_files w st) = Inr []"
    using assms
    by (simp add: get_changed_files_def run_git_command_def subprocess_run_def parse_status_def)
  have failing: "main w st =
         (Returned,
          st\<lparr>trace := trace st
                @ [Print MsgFetching, Exec git_status_args (status_res w),
                   Print (MsgCommandFailed ''git status --porcelain -z''),
                   Print (MsgErrorInfo (utf8_decode_ignore err)),
                   Print MsgNoFiles]\<rparr>)"
    unfolding main_def run_main_status_fails [OF assms]
    by (simp add: assms(1) git_status_args_def)
  have e: "status_res (w\<lparr>status_res := Completed 0 [] []\<rparr>) = Completed 0 [] []"
    by simp
  have p: "parse_status (Some []) = []"
    by (simp add: parse_status_def)
  have empty: "main (w\<lparr>status_res := Completed 0 [] []\<rparr>) st =
         (Returned,
          st\<lparr>trace := trace st
                @ [Print MsgFetching, Exec git_status_args (Completed 0 [] []),
                   Print MsgNoFiles]\<rparr>)"
    unfolding main_def by (rule run_main_status_empty [OF e p])
  show ?thesis
    unfolding failing empty using none nil by simp
qed

theorem failed_status_query_looks_empty_witness:
  "main ((calm_world [])\<lparr>status_res := Completed 128 [] [0x66, 0x61, 0x74, 0x61, 0x6C]\<rparr>)
      fresh_state
     = (Returned,
        \<lparr>trace = [Print MsgFetching,
                  Exec [''git'', ''status'', ''--porcelain'', ''-z'']
                    (Completed 128 [] [0x66, 0x61, 0x74, 0x61, 0x6C]),
                  Print (MsgCommandFailed ''git status --porcelain -z''),
                  Print (MsgErrorInfo [102, 97, 116, 97, 108]),
                  Print MsgNoFiles],
         fs = (\<lambda>name. None)\<rparr>)
   \<and> main (calm_world []) fresh_state
     = (Returned,
        \<lparr>trace = [Print MsgFetching,
                  Exec [''git'', ''status'', ''--porcelain'', ''-z''] (Completed 0 [] []),
                  Print MsgNoFiles],
         fs = (\<lambda>name. None)\<rparr>)"
proof -
  let ?w = "(calm_world [])\<lparr>status_res := Completed 128 [] [0x66, 0x61, 0x74, 0x61, 0x6C]\<rparr>"
  have h1: "status_res ?w = Completed 128 [] [0x66, 0x61, 0x74, 0x61, 0x6C]"
    by simp
  have h2: "(128::int) \<noteq> 0"
    by simp
  have same: "?w\<lparr>status_res := Completed 0 [] []\<rparr> = calm_world []"
    by (simp add: calm_world_def)
  from failed_status_query_looks_empty [OF h1 h2, of fresh_state] show ?thesis
    unfolding same
    by (simp add: fresh_state_def git_status_args_def is_cont_def low6_def second_ok_def)
qed

text \<open>
  C6. \<open>get_changed_files\<close> returns the empty list (an empty status output is parsed as
  the empty list). Then \<open>main\<close> returns and the exit status is 0; the only command of the
  run is the status query; no file is written and the files are as they were; no
  exception was handled; and the last line printed says that there are no files.
\<close>

theorem no_changes_no_commands:
  assumes "fst (get_changed_files w (emit (Print MsgFetching) st)) = Inr []"
  shows "fst (main w st) = Returned
     \<and> exit_status (fst (main w st)) = 0
     \<and> map fst (execs (new_events st (snd (main w st)))) = [git_status_args]
     \<and> writes (new_events st (snd (main w st))) = []
     \<and> handled (new_events st (snd (main w st))) = []
     \<and> last (trace (snd (main w st))) = Print MsgNoFiles
     \<and> fs (snd (main w st)) = fs st
     \<and> parse_status (Some []) = []"
proof (cases "status_res w")
  case SpawnFailed
  with assms show ?thesis
    by (simp add: get_changed_files_def run_git_command_def subprocess_run_def)
next
  case (Completed rc out err)
  show ?thesis
  proof (cases "rc = 0")
    case True
    with Completed assms have "parse_status (Some out) = []"
      by (simp add: get_changed_files_def run_git_command_def subprocess_run_def)
    with Completed True show ?thesis
      by (simp add: main_def run_main_status_empty parse_status_def)
  next
    case False
    with Completed show ?thesis
      by (simp add: main_def run_main_status_fails parse_status_def)
  qed
qed

theorem no_changes_no_commands_witness:
  "fst (get_changed_files (calm_world [0, 0]) (emit (Print MsgFetching) fresh_state)) = Inr []
   \<and> main (calm_world [0, 0]) fresh_state
     = (Returned,
        \<lparr>trace = [Print MsgFetching,
                  Exec [''git'', ''status'', ''--porcelain'', ''-z''] (Completed 0 [0, 0] []),
                  Print MsgNoFiles],
         fs = (\<lambda>name. None)\<rparr>)"
proof -
  have h: "fst (get_changed_files (calm_world [0, 0]) (emit (Print MsgFetching) fresh_state))
      = Inr []"
    by (simp add: get_changed_files_def run_git_command_def subprocess_run_def parse_status_def
        calm_world_def)
  from no_changes_no_commands [OF h] h show ?thesis
    by (simp add: run_defs step_defs example_defs)
qed

section \<open>The removal of the temporary file\<close>






section \<open>The order of the steps\<close>

lemma is_commit_git_commit_args [simp]: "is_commit (git_commit_args m)"
  by (simp add: is_commit_def git_commit_args_def)

lemma other_args [simp]:
  "git_add_args \<noteq> git_status_args" "git_push_args \<noteq> git_status_args"
  by (simp_all add: git_add_args_def git_status_args_def git_push_args_def)

lemma process_batch_phases:
  "\<exists>tr. trace (snd (process_batch B w all T i st)) = trace st @ tr
      \<and> (run_phases Idle tr = Some Idle
          \<or> fst (process_batch B w all T i st) \<noteq> Inr Continue
            \<and> run_phases Idle tr = Some Halted)"
  by (simp add: step_defs after_command_def
      split: proc_result.splits prod.splits sum.splits)

lemma for_batches_phases:
  "\<exists>tr. trace (snd (for_batches B w all T js st)) = trace st @ tr
      \<and> (run_phases Idle tr = Some Idle \<or> run_phases Idle tr = Some Halted)"
proof (induction js arbitrary: st)
  case Nil
  show ?case by simp
next
  case (Cons j js)
  obtain x st' where p: "process_batch B w all T j st = (x, st')"
    by (cases "process_batch B w all T j st")
  from process_batch_phases [of B w all T j st] p obtain tr1 where
    t1: "trace st' = trace st @ tr1" and
    r1: "run_phases Idle tr1 = Some Idle
         \<or> x \<noteq> Inr Continue \<and> run_phases Idle tr1 = Some Halted"
    by auto
  show ?case
  proof (cases "x = Inr Continue")
    case False
    then have "snd (for_batches B w all T (j # js) st) = st'"
      using p by (cases x) (simp_all split: ctl.splits)
    with t1 r1 show ?thesis by auto
  next
    case True
    with r1 have idle: "run_phases Idle tr1 = Some Idle" by simp
    from Cons.IH [of st'] obtain tr2 where
      t2: "trace (snd (for_batches B w all T js st')) = trace st' @ tr2" and
      r2: "run_phases Idle tr2 = Some Idle \<or> run_phases Idle tr2 = Some Halted"
      by auto
    have "trace (snd (for_batches B w all T (j # js) st)) = trace st @ (tr1 @ tr2)"
      using p True t1 t2 by simp
    moreover have "run_phases Idle (tr1 @ tr2) = run_phases Idle tr2"
      using idle by (simp add: run_phases_append)
    ultimately show ?thesis
      using r2 by metis
  qed
qed

lemma run_main_phases:
  "\<exists>tr. trace (snd (run_main B w st)) = trace st @ tr
      \<and> (run_phases Start tr = Some Idle \<or> run_phases Start tr = Some Halted)"
proof (cases "status_res w")
  case SpawnFailed
  then show ?thesis
    by (simp add: run_main_def get_changed_files_def run_git_command_def subprocess_run_def
        emit_def)
next
  case (Completed rc out err)
  show ?thesis
  proof (cases "rc = 0 \<and> parse_status (Some out) \<noteq> []")
    case False
    with Completed show ?thesis
      by (cases "rc = 0") (simp_all add: run_main_status_fails run_main_status_empty)
  next
    case True
    let ?all = "parse_status (Some out)"
    let ?T = "num_batches_of B (length ?all)"
    let ?head = "[Print MsgFetching, Exec git_status_args (Completed 0 out err),
                  Print (MsgFound (length ?all))]"
    let ?st3 = "st\<lparr>trace := trace st @ ?head\<rparr>"
    obtain x st4 where loop: "for_batches B w ?all ?T [0..<?T] ?st3 = (x, st4)"
      by (cases "for_batches B w ?all ?T [0..<?T] ?st3")
    from True Completed loop have run: "run_main B w st =
        (case x of Some e \<Rightarrow> (Unhandled e, st4)
                 | None \<Rightarrow> (Returned, emit (Print MsgFinished) st4))"
      by (simp add: run_main_batches)
    from for_batches_phases [of B w ?all ?T "[0..<?T]" ?st3] loop obtain tr where
      t: "trace st4 = trace ?st3 @ tr" and
      r: "run_phases Idle tr = Some Idle \<or> run_phases Idle tr = Some Halted"
      by auto
    have "trace (snd (run_main B w st)) = trace st @ (?head @ tr)
        \<or> trace (snd (run_main B w st)) = trace st @ (?head @ tr @ [Print MsgFinished])"
      by (cases x) (simp_all add: run t emit_def)
    moreover have "run_phases Start (?head @ tr) = run_phases Idle tr"
      by (simp add: run_phases_append)
    moreover have "run_phases Start (?head @ tr @ [Print MsgFinished]) = run_phases Idle tr"
      using r by (auto simp add: run_phases_append)
    ultimately show ?thesis
      using r by metis
  qed
qed

text \<open>
  C9. The trace of every run, in any surroundings, is accepted by the automaton of the
  steps: after the status query, each batch writes the file, then runs \<open>git add\<close>, then
  \<open>git commit\<close>, then \<open>git push\<close>, each command only after the one before it has ended
  (an \<open>Exec\<close> event holds the result of its call) with return code 0, then removes the
  file; a batch begins only after the file of the batch before it was removed. The same
  holds for one iteration from any state. The automaton refuses a \<open>git add\<close> with no
  file written, a commit with no \<open>git add\<close> before it, a commit after a \<open>git add\<close> that
  ended with code 1, a push with no commit, and a second file written before the first
  batch is over.
\<close>

theorem steps_in_order:
  "ordered_run (new_events st (snd (main w st)))
   \<and> (run_phases Idle (new_events st (snd (process_batch B w all T i st))) = Some Idle
      \<or> run_phases Idle (new_events st (snd (process_batch B w all T i st))) = Some Halted)
   \<and> \<not> ordered_run [Exec git_status_args r0, Exec git_add_args r1]
   \<and> \<not> ordered_run
         [Exec git_status_args r0, WriteFile list_file c, Exec (git_commit_args m) r1]
   \<and> \<not> ordered_run
         [Exec git_status_args r0, WriteFile list_file c, Exec git_add_args (Completed 1 out err),
          Exec (git_commit_args m) r1]
   \<and> \<not> ordered_run
         [Exec git_status_args r0, WriteFile list_file c, Exec git_add_args r1, Exec git_push_args r2]
   \<and> \<not> ordered_run
         [Exec git_status_args r0, WriteFile list_file c, Exec git_add_args (Completed 0 out err),
          WriteFile list_file c']"
proof -
  from run_main_phases [of BATCH_SIZE w st] obtain tr where
    "trace (snd (main w st)) = trace st @ tr"
    "run_phases Start tr = Some Idle \<or> run_phases Start tr = Some Halted"
    unfolding main_def by auto
  then have run: "ordered_run (new_events st (snd (main w st)))"
    by (simp add: ordered_run_def new_events_def)
  from process_batch_phases [of B w all T i st] obtain tr' where
    "trace (snd (process_batch B w all T i st)) = trace st @ tr'"
    "run_phases Idle tr' = Some Idle \<or> run_phases Idle tr' = Some Halted"
    by auto
  then have batch:
    "run_phases Idle (new_events st (snd (process_batch B w all T i st))) = Some Idle
      \<or> run_phases Idle (new_events st (snd (process_batch B w all T i st))) = Some Halted"
    by (simp add: new_events_def)
  have rejected:
    "\<not> ordered_run [Exec git_status_args r0, Exec git_add_args r1]"
    "\<not> ordered_run
         [Exec git_status_args r0, WriteFile list_file c, Exec (git_commit_args m) r1]"
    "\<not> ordered_run
         [Exec git_status_args r0, WriteFile list_file c, Exec git_add_args (Completed 1 out err),
          Exec (git_commit_args m) r1]"
    "\<not> ordered_run
         [Exec git_status_args r0, WriteFile list_file c, Exec git_add_args r1, Exec git_push_args r2]"
    "\<not> ordered_run
         [Exec git_status_args r0, WriteFile list_file c, Exec git_add_args (Completed 0 out err),
          WriteFile list_file c']"
    by (simp_all add: ordered_run_def after_command_def git_commit_args_def git_add_args_def
        git_push_args_def is_commit_def)
  from run batch rejected show ?thesis
    by (intro conjI)
qed

end
